theory Spec2Isabelle
  imports Main
begin

section \<open>Python string operations used by the mail gateway helpers\<close>

text \<open>
  Python strings are modelled as \<open>string\<close>; a \<open>char\<close> stands for a code point
  below 256. The helpers of \<^verbatim>\<open>mailgate_helpers.py\<close> use \<open>str.endswith\<close>,
  \<open>str.split(sep)\<close>, \<open>str.strip()\<close>, \<open>str.lower()\<close> and the \<open>in\<close> test.
\<close>

definition DOMAIN :: string where
  "DOMAIN = ''.learningu.org''"

definition endswith :: "string \<Rightarrow> string \<Rightarrow> bool" where
  "endswith s suf \<longleftrightarrow> length suf \<le> length s \<and> drop (length s - length suf) s = suf"

text \<open>\<open>s.split(c)\<close> for a one-character separator: never empty, \<open>''.split(c) = ['']\<close>.\<close>

fun split_char :: "char \<Rightarrow> string \<Rightarrow> string list" where
  "split_char c [] = [[]]"
| "split_char c (x # xs) =
     (if x = c then [] # split_char c xs
      else (case split_char c xs of
              [] \<Rightarrow> [[x]]
            | t # ts \<Rightarrow> (x # t) # ts))"

text \<open>
  The characters \<open>str.strip()\<close> removes: the code points below 256 for which
  \<open>str.isspace\<close> holds (TAB, LF, VT, FF, CR, FS, GS, RS, US, space, NEL, NBSP).
\<close>

definition is_space :: "char \<Rightarrow> bool" where
  "is_space c \<longleftrightarrow> (of_char c :: nat) \<in> {9, 10, 11, 12, 13, 28, 29, 30, 31, 32, 133, 160}"

definition strip :: "string \<Rightarrow> string" where
  "strip s = rev (dropWhile is_space (rev (dropWhile is_space s)))"

text \<open>
  \<open>str.lower()\<close> on code points below 256: the ASCII capitals and the Latin-1
  capitals (0xC0 to 0xDE without the multiplication sign 0xD7) move up by 32.
  The database function \<open>Lower\<close> and the \<open>iexact\<close> lookup are modelled by the
  same folding.
\<close>

definition lower_char :: "char \<Rightarrow> char" where
  "lower_char c =
     (let n = (of_char c :: nat)
      in if (65 \<le> n \<and> n \<le> 90) \<or> (192 \<le> n \<and> n \<le> 222 \<and> n \<noteq> 215)
         then char_of (n + 32) else c)"

definition lower :: "string \<Rightarrow> string" where
  "lower s = map lower_char s"

definition iexact :: "string \<Rightarrow> string \<Rightarrow> bool" where
  "iexact a b \<longleftrightarrow> lower a = lower b"

section \<open>Database rows\<close>

text \<open>
  \<open>PlainRedirect\<close> has a key \<open>original\<close> and a nullable \<open>destination\<close>;
  \<open>ESPUser\<close> has a username, an email, the names of its groups and the time it
  joined. A table is the list of its rows in the order a query yields them.
\<close>

record PlainRedirect =
  original :: string
  destination :: "string option"

record ESPUser =
  username :: string
  email :: string
  groups :: "string list"
  date_joined :: nat

record database =
  plain_redirects :: "PlainRedirect list"
  esp_users :: "ESPUser list"

section \<open>Recipient filtering and alias resolution\<close>

text \<open>
  \<open>filter_recipients\<close>: one pass over the recipients, appending to
  \<open>aliases\<close>, to \<open>real_recipients\<close>, or logging a warning. The state of the loop
  is (real recipients, aliases, warnings logged).
\<close>

definition filter_step ::
  "string \<Rightarrow> string list \<times> string list \<times> string list \<Rightarrow> string \<Rightarrow>
   string list \<times> string list \<times> string list" where
  "filter_step domain st recipient =
     (case st of (real_recipients, aliases, warnings) \<Rightarrow>
        if endswith recipient domain then (real_recipients, aliases @ [recipient], warnings)
        else if CHR ''@'' \<in> set recipient then (real_recipients @ [recipient], aliases, warnings)
        else (real_recipients, aliases, warnings @ [recipient]))"

definition filter_recipients_logged ::
  "string list \<Rightarrow> string \<Rightarrow> string list \<times> string list \<times> string list" where
  "filter_recipients_logged recipients domain =
     foldl (filter_step domain) ([], [], []) recipients"

definition filter_recipients :: "string list \<Rightarrow> string \<Rightarrow> string list \<times> string list" where
  "filter_recipients recipients domain =
     (case filter_recipients_logged recipients domain of
        (real_recipients, aliases, warnings) \<Rightarrow> (real_recipients, aliases))"

text \<open>
  \<open>resolve_aliases\<close>: the two queries, the flattening of the comma-separated
  destinations, and the final loop that strips each address and keeps the
  non-empty ones that do not end with \<open>DOMAIN\<close>.
\<close>

definition local_parts_of :: "string list \<Rightarrow> string list" where
  "local_parts_of aliases = map (\<lambda>x. lower (hd (split_char CHR ''@'' x))) aliases"

definition redirects_query :: "database \<Rightarrow> string list \<Rightarrow> PlainRedirect list" where
  "redirects_query db local_parts =
     filter (\<lambda>r. destination r \<noteq> Some [])
       (filter (\<lambda>r. destination r \<noteq> None)
          (filter (\<lambda>r. lower (original r) \<in> set local_parts) (plain_redirects db)))"

definition redirect_addresses_of :: "PlainRedirect list \<Rightarrow> string list" where
  "redirect_addresses_of redirects =
     concat (map (\<lambda>x. case destination x of
                         None \<Rightarrow> []
                       | Some d \<Rightarrow> if d \<noteq> [] then split_char CHR '','' d else [])
                 redirects)"

definition users_query :: "database \<Rightarrow> string list \<Rightarrow> ESPUser list" where
  "users_query db local_parts =
     filter (\<lambda>u. lower (username u) \<in> set local_parts) (esp_users db)"

definition keep_resolved :: "string list \<Rightarrow> string \<Rightarrow> string list" where
  "keep_resolved resolved address0 =
     (let address = strip address0
      in if address \<noteq> [] \<and> \<not> endswith address DOMAIN then resolved @ [address]
         else resolved)"

definition resolve_aliases :: "database \<Rightarrow> string list \<Rightarrow> string list" where
  "resolve_aliases db aliases =
     (let local_parts = local_parts_of aliases;
          redirects = redirects_query db local_parts;
          redirect_addresses = redirect_addresses_of redirects;
          users = users_query db local_parts;
          user_addresses = map email users
      in foldl keep_resolved [] (redirect_addresses @ user_addresses))"

definition resolve_recipients :: "database \<Rightarrow> string list \<Rightarrow> string \<Rightarrow> string list" where
  "resolve_recipients db recipients domain =
     (case filter_recipients recipients domain of
        (real_recipients, aliases) \<Rightarrow> real_recipients @ resolve_aliases db aliases)"

section \<open>Sender parsing and lookup\<close>

text \<open>
  \<open>parse_sender_email\<close> returns \<open>None\<close>, returns an address, or raises
  \<open>AttributeError\<close> with the list of tokens in its message. The argument is the
  header value or \<open>None\<close>.
\<close>

datatype sender_error = More_than_one_sender "string list"

definition parse_sender_email :: "string option \<Rightarrow> sender_error + string option" where
  "parse_sender_email from_field =
     (case from_field of
        None \<Rightarrow> Inr None
      | Some f \<Rightarrow>
          if f = [] then Inr None
          else
            let addresses = split_char CHR '','' f
            in if addresses = [] \<or> (length addresses = 1 \<and> strip (addresses ! 0) = [])
               then Inr None
               else if length addresses \<noteq> 1 then Inl (More_than_one_sender addresses)
               else
                 let email_address = strip (addresses ! 0)
                 in if CHR ''<'' \<in> set email_address \<and> CHR ''>'' \<in> set email_address
                    then Inr (Some (split_char CHR ''>''
                                      (split_char CHR ''<'' email_address ! 1) ! 0))
                    else Inr (Some email_address))"

text \<open>
  The reading of the sender rule in the specification: the candidates are the
  comma-separated tokens that are not blank, and the address in angle brackets
  is the text from the first \<open><\<close> to the first \<open>>\<close>.
\<close>

definition spec_candidates :: "string \<Rightarrow> string list" where
  "spec_candidates f = filter (\<lambda>a. strip a \<noteq> []) (split_char CHR '','' f)"

definition spec_between_angles :: "string \<Rightarrow> string" where
  "spec_between_angles s =
     takeWhile (\<lambda>c. c \<noteq> CHR ''>'') (tl (dropWhile (\<lambda>c. c \<noteq> CHR ''<'') s))"

text \<open>
  \<open>lookup_sender\<close>: the query ordered by \<open>date_joined\<close> (rows that joined at the
  same time keep the order of the table), then the choice by group.
\<close>

definition role_order :: "string list" where
  "role_order = [''Administrator'', ''Teacher'', ''Volunteer'', ''Student'', ''Educator'']"

definition matching_users :: "database \<Rightarrow> string \<Rightarrow> string \<Rightarrow> ESPUser list" where
  "matching_users db email_address email_host_sender =
     (if endswith email_address email_host_sender
      then filter (\<lambda>u. iexact (username u) (hd (split_char CHR ''@'' email_address)))
             (esp_users db)
      else filter (\<lambda>u. iexact (email u) email_address) (esp_users db))"

definition sender_query :: "database \<Rightarrow> string \<Rightarrow> string \<Rightarrow> ESPUser list" where
  "sender_query db email_address email_host_sender =
     sort_key date_joined (matching_users db email_address email_host_sender)"

fun select_sender :: "ESPUser list \<Rightarrow> ESPUser \<Rightarrow> string list \<Rightarrow> ESPUser" where
  "select_sender users sender [] = sender"
| "select_sender users sender (group_name # rest) =
     (let group_users = filter (\<lambda>x. group_name \<in> set (groups x)) users
      in if length group_users > 0 then group_users ! 0
         else select_sender users sender rest)"

definition lookup_sender :: "database \<Rightarrow> string \<Rightarrow> string \<Rightarrow> ESPUser option" where
  "lookup_sender db email_address email_host_sender =
     (let users = sender_query db email_address email_host_sender
      in if length users = 0 then None
         else if length users = 1 then Some (users ! 0)
         else Some (select_sender users (users ! 0) role_order))"

section \<open>Body rendering\<close>

text \<open>
  The message object the function reads: a text part with its subtype and
  decoded content, another leaf with its content type, or a multipart container.
  \<open>get_content_type\<close> and \<open>get_body\<close> follow \<open>email.message.EmailMessage\<close> for
  messages without attachment dispositions and without a \<open>start\<close> parameter.
\<close>

datatype message =
    Text_part string string
  | Other_part string
  | Multipart string "message list"

fun get_content_type :: "message \<Rightarrow> string" where
  "get_content_type (Text_part subtype content) = ''text/'' @ subtype"
| "get_content_type (Other_part ctype) = ctype"
| "get_content_type (Multipart subtype parts) = ''multipart/'' @ subtype"

fun find_body :: "message \<Rightarrow> (nat \<times> message) list" where
  "find_body (Text_part subtype content) =
     (if subtype = ''html'' then [(0, Text_part subtype content)]
      else if subtype = ''plain'' then [(1, Text_part subtype content)]
      else [])"
| "find_body (Other_part ctype) = []"
| "find_body (Multipart subtype parts) =
     (if subtype \<noteq> ''related'' then concat (map find_body parts)
      else (case parts of [] \<Rightarrow> [] | candidate # others \<Rightarrow> find_body candidate))"

fun get_body_loop :: "nat \<Rightarrow> message option \<Rightarrow> (nat \<times> message) list \<Rightarrow> message option" where
  "get_body_loop best_prio body [] = body"
| "get_body_loop best_prio body ((prio, part) # rest) =
     (if prio < best_prio
      then (if prio = 0 then Some part else get_body_loop prio (Some part) rest)
      else get_body_loop best_prio body rest)"

definition get_body :: "message \<Rightarrow> message option" where
  "get_body msg = get_body_loop 2 None (find_body msg)"

fun get_content :: "message \<Rightarrow> string" where
  "get_content (Text_part subtype content) = content"
| "get_content (Other_part ctype) = []"
| "get_content (Multipart subtype parts) = []"

text \<open>\<open>html.escape\<close> with \<open>quote=True\<close>: five replacements, the ampersand first.\<close>

definition replace_char :: "char \<Rightarrow> string \<Rightarrow> string \<Rightarrow> string" where
  "replace_char c new s = concat (map (\<lambda>x. if x = c then new else [x]) s)"

definition html_escape :: "string \<Rightarrow> string" where
  "html_escape s =
     replace_char (CHR 0x27) ''&#x27;''
       (replace_char (CHR 0x22) ''&quot;''
          (replace_char CHR ''>'' ''&gt;''
             (replace_char CHR ''<'' ''&lt;''
                (replace_char CHR ''&'' ''&amp;'' s))))"

definition html_prefix :: string where
  "html_prefix =
     ''<html>'' @ [CHR 0x0A] @
     ''  <head>'' @ [CHR 0x0A] @
     ''    <meta charset='' @ [CHR 0x22] @ ''UTF-8'' @ [CHR 0x22] @ ''>'' @ [CHR 0x0A] @
     ''    <title>Email Content</title>'' @ [CHR 0x0A] @
     ''  </head>'' @ [CHR 0x0A] @
     ''  <body>'' @ [CHR 0x0A] @
     ''    ''"

definition html_suffix :: string where
  "html_suffix =
     [CHR 0x0A] @
     ''  </body>'' @ [CHR 0x0A] @
     ''</html>''"

datatype body_error = No_body

definition build_email_body :: "message \<Rightarrow> body_error + string" where
  "build_email_body msg =
     (case get_body msg of
        None \<Rightarrow> Inl No_body
      | Some part \<Rightarrow>
          let message_content = get_content part;
              content = (if get_content_type msg \<noteq> ''text/html''
                         then html_escape message_content
                         else message_content)
          in Inr (html_prefix @ content @ html_suffix))"

section \<open>The migration that removes AdminMorph\<close>

text \<open>
  The tables the two migration functions touch: the \<open>ProgramModule\<close> registry,
  the ids of the \<open>Program\<close> rows, and the many-to-many links (program id,
  module id). \<open>next_module_id\<close> is the id the database gives to the next
  \<open>ProgramModule\<close> row it inserts.
\<close>

record ProgramModule =
  pm_id :: int
  handler :: string
  link_title :: string
  admin_title :: string
  module_type :: string
  seq :: int
  choosable :: int

text \<open>
  What \<open>json.load\<close> returns. A number with a fraction or an exponent, and the
  literals \<open>NaN\<close>, \<open>Infinity\<close> and \<open>-Infinity\<close>, which the decoder accepts
  although they are not JSON, become a float; \<open>JFloat\<close> keeps the literal.
\<close>

datatype json =
    JNull
  | JBool bool
  | JNum int
  | JFloat string
  | JStr string
  | JArr "json list"
  | JObj "(string \<times> json) list"

text \<open>
  The state file, by what \<open>open\<close> and \<open>json.load\<close> do with it:
  \<^item> \<open>Missing\<close>: \<open>open\<close> raises \<open>OSError\<close>;
  \<^item> \<open>Not_json\<close>: the content is rejected with a \<open>ValueError\<close>
    (\<open>JSONDecodeError\<close>, or \<open>UnicodeDecodeError\<close> for bytes that are not text);
  \<^item> \<open>Too_deep json_text\<close>: the content is nested beyond the recursion limit of the
    interpreter and \<open>json.load\<close> raises \<open>RecursionError\<close>; \<open>json_text\<close> tells whether
    the text is JSON (the text made of a thousand \<open>[\<close> is not);
  \<^item> \<open>Json v\<close>: \<open>json.load\<close> returns \<open>v\<close>.
\<close>

datatype state_file = Missing | Not_json | Too_deep bool | Json json

fun strict_json :: "json \<Rightarrow> bool" where
  "strict_json (JFloat lit) \<longleftrightarrow> lit \<notin> {''NaN'', ''Infinity'', ''-Infinity''}"
| "strict_json (JArr xs) \<longleftrightarrow> list_all strict_json xs"
| "strict_json (JObj kvs) \<longleftrightarrow> list_all (\<lambda>kv. strict_json (snd kv)) kvs"
| "strict_json other \<longleftrightarrow> True"

text \<open>A state file that exists and whose content is not a JSON document.\<close>

fun malformed :: "state_file \<Rightarrow> bool" where
  "malformed Missing \<longleftrightarrow> False"
| "malformed Not_json \<longleftrightarrow> True"
| "malformed (Too_deep json_text) \<longleftrightarrow> \<not> json_text"
| "malformed (Json v) \<longleftrightarrow> \<not> strict_json v"

record mig_state =
  program_modules :: "ProgramModule list"
  next_module_id :: int
  programs :: "int list"
  module_links :: "(int \<times> int) list"
  the_state_file :: state_file

datatype mig_error =
    OSError
  | MultipleObjectsReturned
  | IntegrityError
  | RecursionError
  | AttributeError
  | LookupFailed

datatype outcome = Returned | Raised mig_error

text \<open>
  Writing the state file succeeds, fails in \<open>open\<close> (the file is as before), or
  fails in \<open>json.dump\<close> after \<open>open\<close> has truncated the file, which leaves an
  empty file or a proper prefix of the document. Both failures are an
  \<open>OSError\<close> inside the \<open>try\<close>.
\<close>

datatype write_result = Written | Open_failed | Dump_failed

definition adminmorph_qs :: "mig_state \<Rightarrow> ProgramModule list" where
  "adminmorph_qs s = filter (\<lambda>m. handler m = ''AdminMorph'') (program_modules s)"

definition programs_with_module :: "mig_state \<Rightarrow> ProgramModule \<Rightarrow> int list" where
  "programs_with_module s am_module =
     filter (\<lambda>pid. (pid, pm_id am_module) \<in> set (module_links s)) (programs s)"

definition affected_ids :: "mig_state \<Rightarrow> int list" where
  "affected_ids s =
     sort (remdups (concat (map (programs_with_module s) (adminmorph_qs s))))"

definition write_state_file :: "write_result \<Rightarrow> int list \<Rightarrow> state_file \<Rightarrow> state_file" where
  "write_state_file w ids f =
     (case w of
        Written \<Rightarrow> Json (JObj [(''program_ids'', JArr (map JNum ids))])
      | Open_failed \<Rightarrow> f
      | Dump_failed \<Rightarrow> Not_json)"

definition delete_adminmorph :: "mig_state \<Rightarrow> mig_state" where
  "delete_adminmorph s =
     s\<lparr>program_modules := filter (\<lambda>m. handler m \<noteq> ''AdminMorph'') (program_modules s),
       module_links := filter (\<lambda>l. snd l \<notin> set (map pm_id (adminmorph_qs s)))
                         (module_links s)\<rparr>"

definition remove_adminmorph_programmodule ::
  "write_result \<Rightarrow> mig_state \<Rightarrow> outcome \<times> mig_state" where
  "remove_adminmorph_programmodule w s =
     (let ids = affected_ids s;
          s1 = s\<lparr>the_state_file := write_state_file w ids (the_state_file s)\<rparr>
      in if w \<noteq> Written \<and> ids \<noteq> [] then (Raised OSError, s1)
         else (Returned, delete_adminmorph s1))"

text \<open>
  The reverse function. \<open>get_or_create\<close> returns the only matching row, creates
  one with the defaults when there is none, and raises when there are several.
  The created row takes the id the database assigns; an insert under an id
  that is in use is refused.
\<close>

definition new_adminmorph :: "mig_state \<Rightarrow> ProgramModule" where
  "new_adminmorph s =
     \<lparr>pm_id = next_module_id s,
      handler = ''AdminMorph'',
      link_title = ''Morph into User'',
      admin_title = ''User Morphing Capability'',
      module_type = ''manage'',
      seq = 34,
      choosable = 1\<rparr>"

definition get_or_create :: "mig_state \<Rightarrow> mig_error + (ProgramModule \<times> mig_state)" where
  "get_or_create s =
     (case adminmorph_qs s of
        [] \<Rightarrow>
          if next_module_id s \<in> set (map pm_id (program_modules s)) then Inl IntegrityError
          else Inr (new_adminmorph s,
                    s\<lparr>program_modules := program_modules s @ [new_adminmorph s],
                      next_module_id := next_module_id s + 1\<rparr>)
      | [am] \<Rightarrow> Inr (am, s)
      | am # other # others \<Rightarrow> Inl MultipleObjectsReturned)"

text \<open>
  Reading the ids: only \<open>OSError\<close> and \<open>ValueError\<close> are caught, and give the
  empty list; \<open>RecursionError\<close> is neither. A document that is not an object
  has no \<open>get\<close>. In a JSON object with a repeated key the last value wins.
\<close>

definition read_ids :: "state_file \<Rightarrow> mig_error + json" where
  "read_ids f =
     (case f of
        Missing \<Rightarrow> Inr (JArr [])
      | Not_json \<Rightarrow> Inr (JArr [])
      | Too_deep json_text \<Rightarrow> Inl RecursionError
      | Json (JObj kvs) \<Rightarrow>
          (case map_of (rev kvs) ''program_ids'' of
             None \<Rightarrow> Inr (JArr [])
           | Some v \<Rightarrow> Inr v)
      | Json other \<Rightarrow> Inl AttributeError)"

definition add_link :: "int \<Rightarrow> (int \<times> int) list \<Rightarrow> int \<Rightarrow> (int \<times> int) list" where
  "add_link am links pid = (if (pid, am) \<in> set links then links else links @ [(pid, am)])"

text \<open>
  The \<open>id__in\<close> lookup belongs to the object-relational mapper, which is not
  part of the repository. It is the parameter \<open>id_in\<close>: from the value read
  from the file it gives the ids it selects, or raises.
\<close>

definition restore_adminmorph_programmodule ::
  "(json \<Rightarrow> mig_error + int list) \<Rightarrow> mig_state \<Rightarrow> outcome \<times> mig_state" where
  "restore_adminmorph_programmodule id_in s =
     (case get_or_create s of
        Inl e \<Rightarrow> (Raised e, s)
      | Inr (am, s1) \<Rightarrow>
          (case read_ids (the_state_file s1) of
             Inl e \<Rightarrow> (Raised e, s1)
           | Inr v \<Rightarrow>
               (case id_in v of
                  Inl e \<Rightarrow> (Raised e, s1)
                | Inr ids_to_restore \<Rightarrow>
                    (Returned,
                     s1\<lparr>module_links :=
                          foldl (add_link (pm_id am)) (module_links s1)
                            (filter (\<lambda>pid. pid \<in> set ids_to_restore) (programs s1)),
                        the_state_file := Missing\<rparr>))))"

section \<open>Example data\<close>

text \<open>
  Concrete tables, messages and migration states on which the theorems below
  are instantiated.
\<close>

definition example_db :: database where
  "example_db =
     \<lparr>plain_redirects =
        [\<lparr>original = ''Team'', destination = Some ''a@x.com,b@y.com''\<rparr>,
         \<lparr>original = ''staff'', destination = Some ''c@z.org, ''\<rparr>,
         \<lparr>original = ''loop'', destination = Some ''other@site.learningu.org''\<rparr>,
         \<lparr>original = ''empty'', destination = None\<rparr>],
      esp_users =
        [\<lparr>username = ''JSmith'', email = ''jsmith@gmail.com'', groups = [], date_joined = 1\<rparr>]\<rparr>"

definition example_users :: database where
  "example_users =
     \<lparr>plain_redirects = [],
      esp_users =
        [\<lparr>username = ''user_t'', email = ''dup@gmail.com'', groups = [''Teacher''], date_joined = 2\<rparr>,
         \<lparr>username = ''other'', email = ''other@gmail.com'', groups = [''Administrator''], date_joined = 0\<rparr>,
         \<lparr>username = ''user_s'', email = ''Dup@Gmail.com'', groups = [''Student''], date_joined = 1\<rparr>]\<rparr>"

definition html_alternative_message :: message where
  "html_alternative_message =
     Multipart ''alternative''
       [Text_part ''plain'' (''fallback text'' @ [CHR 0x0A]),
        Text_part ''html'' (''<p>Hello <b>world</b></p>'' @ [CHR 0x0A])]"

definition example_installed :: mig_state where
  "example_installed =
     \<lparr>program_modules =
        [\<lparr>pm_id = 3, handler = ''AdminCore'', link_title = ''Dashboard'',
          admin_title = ''Core'', module_type = ''manage'', seq = 1, choosable = 0\<rparr>,
         \<lparr>pm_id = 7, handler = ''AdminMorph'', link_title = ''Morph into User'',
          admin_title = ''User Morphing Capability'', module_type = ''manage'',
          seq = 34, choosable = 1\<rparr>],
      next_module_id = 8,
      programs = [1, 2],
      module_links = [(1, 3), (2, 7), (2, 3)],
      the_state_file = Missing\<rparr>"

definition example_removed :: mig_state where
  "example_removed =
     \<lparr>program_modules =
        [\<lparr>pm_id = 3, handler = ''AdminCore'', link_title = ''Dashboard'',
          admin_title = ''Core'', module_type = ''manage'', seq = 1, choosable = 0\<rparr>],
      next_module_id = 8,
      programs = [1, 2],
      module_links = [(1, 3), (2, 3)],
      the_state_file = Not_json\<rparr>"

text \<open>
  An instance of the \<open>id__in\<close> lookup: it selects the ids of a list of
  integers and refuses every other value.
\<close>

definition int_list_lookup :: "json \<Rightarrow> mig_error + int list" where
  "int_list_lookup v =
     (case v of
        JArr xs \<Rightarrow>
          if list_all (\<lambda>x. case x of JNum n \<Rightarrow> True | other \<Rightarrow> False) xs
          then Inr (map (\<lambda>x. case x of JNum n \<Rightarrow> n | other \<Rightarrow> 0) xs)
          else Inl LookupFailed
      | other \<Rightarrow> Inl LookupFailed)"

section \<open>Properties of recipient filtering and alias resolution\<close>

lemma filter_loop_eq:
  "foldl (filter_step domain) (a, b, c) rs =
     (a @ filter (\<lambda>r. \<not> endswith r domain \<and> CHR ''@'' \<in> set r) rs,
      b @ filter (\<lambda>r. endswith r domain) rs,
      c @ filter (\<lambda>r. \<not> endswith r domain \<and> CHR ''@'' \<notin> set r) rs)"
  by (induction rs arbitrary: a b c) (simp_all add: filter_step_def)

lemma filter_recipients_eq:
  "filter_recipients rs domain =
     (filter (\<lambda>r. \<not> endswith r domain \<and> CHR ''@'' \<in> set r) rs,
      filter (\<lambda>r. endswith r domain) rs)"
  by (simp add: filter_recipients_def filter_recipients_logged_def filter_loop_eq)

lemma keep_loop_eq:
  "foldl keep_resolved acc xs =
     acc @ filter (\<lambda>a. a \<noteq> [] \<and> \<not> endswith a DOMAIN) (map strip xs)"
  by (induction xs arbitrary: acc) (simp_all add: keep_resolved_def Let_def)

lemma resolve_aliases_eq:
  "resolve_aliases db aliases =
     filter (\<lambda>a. a \<noteq> [] \<and> \<not> endswith a DOMAIN)
       (map strip (redirect_addresses_of (redirects_query db (local_parts_of aliases))
                   @ map email (users_query db (local_parts_of aliases))))"
  by (simp add: resolve_aliases_def Let_def keep_loop_eq)

lemma resolve_aliases_Nil: "resolve_aliases db [] = []"
  by (simp add: resolve_aliases_eq local_parts_of_def redirects_query_def users_query_def
      redirect_addresses_of_def)

lemma strip_hd: "strip s \<noteq> [] \<Longrightarrow> \<not> is_space (hd (strip s))"
proof -
  assume ne: "strip s \<noteq> []"
  define t where "t = dropWhile is_space s"
  have st: "strip s = rev (dropWhile is_space (rev t))"
    by (simp add: strip_def t_def)
  have "rev t = takeWhile is_space (rev t) @ dropWhile is_space (rev t)"
    by simp
  then have "t = rev (dropWhile is_space (rev t)) @ rev (takeWhile is_space (rev t))"
    by (metis rev_append rev_rev_ident)
  then have t_eq: "t = strip s @ rev (takeWhile is_space (rev t))"
    using st by simp
  from ne t_eq have "hd t = hd (strip s)"
    by (metis hd_append2)
  moreover have "t \<noteq> []" using ne t_eq by auto
  then have "\<not> is_space (hd t)"
    unfolding t_def by (rule hd_dropWhile)
  ultimately show ?thesis by simp
qed

lemma strip_last: "strip s \<noteq> [] \<Longrightarrow> \<not> is_space (last (strip s))"
proof -
  assume ne: "strip s \<noteq> []"
  let ?u = "dropWhile is_space (rev (dropWhile is_space s))"
  have "?u \<noteq> []" using ne by (simp add: strip_def)
  then have "\<not> is_space (hd ?u)" by (rule hd_dropWhile)
  moreover have "last (strip s) = hd ?u"
    using \<open>?u \<noteq> []\<close> by (simp add: strip_def last_rev)
  ultimately show ?thesis by simp
qed

text \<open>
  Claim C1. Whatever rows the redirect and user tables hold and whatever aliases
  are passed in, no address in the list returned by \<open>resolve_aliases\<close> ends
  with the internal suffix \<open>.learningu.org\<close>.
\<close>

theorem resolve_aliases_never_internal:
  "\<forall>a \<in> set (resolve_aliases db aliases). \<not> endswith a DOMAIN"
  by (auto simp add: resolve_aliases_eq)

text \<open>
  An instance: the alias \<open>team\<close> resolves to an external address, and the
  redirect that points back into the internal domain contributes nothing.
\<close>

theorem resolve_aliases_never_internal_witness:
  "''a@x.com'' \<in> set (resolve_aliases example_db [''team@site.learningu.org'', ''loop@site.learningu.org''])
   \<and> \<not> endswith ''a@x.com'' DOMAIN"
proof -
  have mem: "''a@x.com'' \<in> set (resolve_aliases example_db [''team@site.learningu.org'', ''loop@site.learningu.org''])"
    by code_simp
  from resolve_aliases_never_internal [of example_db "[''team@site.learningu.org'', ''loop@site.learningu.org'']"] mem
  show ?thesis by blast
qed

text \<open>
  Claim C10. Every address returned by \<open>resolve_aliases\<close> is non-empty and
  neither starts nor ends with a whitespace character; components that are
  empty once stripped do not reach the output.
\<close>

theorem resolve_aliases_stripped:
  "\<forall>a \<in> set (resolve_aliases db aliases).
     a \<noteq> [] \<and> \<not> is_space (hd a) \<and> \<not> is_space (last a)"
  by (auto simp add: resolve_aliases_eq strip_hd strip_last)

text \<open>
  An instance: the destination \<open>c@z.org, \<close> has a blank second component,
  which is dropped.
\<close>

theorem resolve_aliases_stripped_witness:
  "resolve_aliases example_db [''STAFF@site.learningu.org''] = [''c@z.org'']
   \<and> ''c@z.org'' \<noteq> [] \<and> \<not> is_space (hd ''c@z.org'') \<and> \<not> is_space (last ''c@z.org'')"
proof -
  have eq: "resolve_aliases example_db [''STAFF@site.learningu.org''] = [''c@z.org'']"
    by code_simp
  from resolve_aliases_stripped [of example_db "[''STAFF@site.learningu.org'']"] eq
  show ?thesis by simp
qed

text \<open>
  Claim C9. When a redirect row matches an input alias on its lower-cased
  local part, every comma-separated component of its destination that is an
  external address (non-empty after stripping, not ending with the internal
  suffix) is in the resolved list.
\<close>

theorem redirect_destinations_expanded:
  assumes "r \<in> set (plain_redirects db)"
    and "alias \<in> set aliases"
    and "lower (original r) = lower (hd (split_char CHR ''@'' alias))"
    and "destination r = Some d"
    and "a \<in> set (split_char CHR '','' d)"
    and "strip a \<noteq> []"
    and "\<not> endswith (strip a) DOMAIN"
  shows "strip a \<in> set (resolve_aliases db aliases)"
proof -
  have lp: "lower (original r) \<in> set (local_parts_of aliases)"
    using assms(2,3) by (auto simp add: local_parts_of_def)
  have "d \<noteq> []"
    using assms(5,6) by (auto simp add: strip_def)
  then have "r \<in> set (redirects_query db (local_parts_of aliases))"
    using assms(1,4) lp by (simp add: redirects_query_def)
  then have "a \<in> set (redirect_addresses_of (redirects_query db (local_parts_of aliases)))"
    using assms(4,5) \<open>d \<noteq> []\<close> by (force simp add: redirect_addresses_of_def)
  then show ?thesis
    using assms(6,7) by (auto simp add: resolve_aliases_eq)
qed

text \<open>
  An instance: the destination \<open>a@x.com,b@y.com\<close> yields both addresses.
\<close>

theorem redirect_destinations_expanded_witness:
  "''a@x.com'' \<in> set (resolve_aliases example_db [''team@site.learningu.org''])
   \<and> ''b@y.com'' \<in> set (resolve_aliases example_db [''team@site.learningu.org''])"
proof -
  let ?r = "\<lparr>original = ''Team'', destination = Some ''a@x.com,b@y.com''\<rparr>"
  have 1: "?r \<in> set (plain_redirects example_db)"
    by (simp add: example_db_def)
  have 2: "''team@site.learningu.org'' \<in> set [''team@site.learningu.org'']"
    by simp
  have 3: "lower (original ?r) = lower (hd (split_char CHR ''@'' ''team@site.learningu.org''))"
    by code_simp
  have 4: "destination ?r = Some ''a@x.com,b@y.com''"
    by simp
  have 5: "''a@x.com'' \<in> set (split_char CHR '','' ''a@x.com,b@y.com'')"
    "''b@y.com'' \<in> set (split_char CHR '','' ''a@x.com,b@y.com'')"
    by simp_all
  have 6: "strip ''a@x.com'' = ''a@x.com''" "strip ''b@y.com'' = ''b@y.com''"
    by code_simp+
  have 7: "\<not> endswith ''a@x.com'' DOMAIN" "\<not> endswith ''b@y.com'' DOMAIN"
    by code_simp+
  from redirect_destinations_expanded [OF 1 2 3 4 5(1)] 6(1) 7(1)
  have a: "''a@x.com'' \<in> set (resolve_aliases example_db [''team@site.learningu.org''])"
    by simp
  from redirect_destinations_expanded [OF 1 2 3 4 5(2)] 6(2) 7(2)
  have b: "''b@y.com'' \<in> set (resolve_aliases example_db [''team@site.learningu.org''])"
    by simp
  from a b show ?thesis by simp
qed

text \<open>
  Claim C8 as stated fails: an address without \<open>@\<close> does not end with the
  suffix, yet \<open>resolve_recipients\<close> drops it instead of returning it.
\<close>

theorem resolve_recipients_identity_counterexample:
  "\<not> endswith ''malformed-address'' DOMAIN
   \<and> resolve_recipients \<lparr>plain_redirects = [], esp_users = []\<rparr> [''malformed-address''] DOMAIN = []"
  by code_simp

text \<open>
  Claim C8, amended. \<open>resolve_recipients\<close> maps the empty list to the empty
  list, and returns unchanged every list whose addresses all contain \<open>@\<close> and
  do not end with the domain suffix.
\<close>

theorem resolve_recipients_real_only:
  "resolve_recipients db [] domain = []
   \<and> ((\<forall>r \<in> set recipients. \<not> endswith r domain \<and> CHR ''@'' \<in> set r)
        \<longrightarrow> resolve_recipients db recipients domain = recipients)"
proof -
  have "resolve_recipients db [] domain = []"
    by (simp add: resolve_recipients_def filter_recipients_eq resolve_aliases_Nil)
  moreover have "resolve_recipients db recipients domain = recipients"
    if h: "\<forall>r \<in> set recipients. \<not> endswith r domain \<and> CHR ''@'' \<in> set r"
  proof -
    have "filter (\<lambda>r. endswith r domain) recipients = []"
      using h by (simp add: filter_empty_conv)
    moreover have "filter (\<lambda>r. \<not> endswith r domain \<and> CHR ''@'' \<in> set r) recipients = recipients"
      using h by (simp add: filter_id_conv)
    ultimately show ?thesis
      by (simp add: resolve_recipients_def filter_recipients_eq resolve_aliases_Nil)
  qed
  ultimately show ?thesis by blast
qed

text \<open>
  An instance with three external addresses.
\<close>

theorem resolve_recipients_real_only_witness:
  "resolve_recipients example_db [''a@gmail.com'', ''b@yahoo.com'', ''c@school.edu''] DOMAIN
     = [''a@gmail.com'', ''b@yahoo.com'', ''c@school.edu'']"
proof -
  have h: "\<forall>r \<in> set [''a@gmail.com'', ''b@yahoo.com'', ''c@school.edu''].
             \<not> endswith r DOMAIN \<and> CHR ''@'' \<in> set r"
    by code_simp
  from resolve_recipients_real_only
         [of example_db DOMAIN "[''a@gmail.com'', ''b@yahoo.com'', ''c@school.edu'']"] h
  show ?thesis by blast
qed

text \<open>
  Claim C2. The docstring of \<open>filter_recipients\<close> says that addresses without
  \<open>@\<close> are logged and discarded. The suffix test runs first, so an address
  without \<open>@\<close> that ends with the suffix is returned among the aliases.
\<close>

theorem filter_recipients_alias_without_at:
  "CHR ''@'' \<notin> set ''site.learningu.org''
   \<and> filter_recipients [''site.learningu.org''] DOMAIN = ([], [''site.learningu.org''])
   \<and> filter_recipients_logged [''site.learningu.org''] DOMAIN
       = ([], [''site.learningu.org''], [])"
  by code_simp

section \<open>Properties of sender parsing\<close>

lemma split_char_nonempty: "split_char c s \<noteq> []"
  by (induction s) (auto split: list.splits)

lemma split_char_no_sep: "c \<notin> set s \<Longrightarrow> split_char c s = [s]"
  by (induction s) auto

lemma split_char_length_sep: "c \<in> set s \<Longrightarrow> 1 < length (split_char c s)"
proof (induction s)
  case Nil
  then show ?case by simp
next
  case (Cons x xs)
  show ?case
  proof (cases "x = c")
    case True
    then show ?thesis using split_char_nonempty [of c xs] by (cases "split_char c xs") auto
  next
    case False
    with Cons show ?thesis by (cases "split_char c xs") auto
  qed
qed

lemma split_char_length_one: "length (split_char c s) = Suc 0 \<longleftrightarrow> c \<notin> set s"
  using split_char_length_sep [of c s] split_char_no_sep [of c s] by fastforce

lemma split_char_first: "split_char c s ! 0 = takeWhile (\<lambda>x. x \<noteq> c) s"
proof (induction s)
  case Nil
  then show ?case by simp
next
  case (Cons x xs)
  then show ?case using split_char_nonempty [of c xs]
    by (cases "split_char c xs") auto
qed

lemma split_char_second:
  "c \<in> set s \<Longrightarrow>
   split_char c s ! Suc 0 = takeWhile (\<lambda>x. x \<noteq> c) (tl (dropWhile (\<lambda>x. x \<noteq> c) s))"
proof (induction s)
  case Nil
  then show ?case by simp
next
  case (Cons x xs)
  show ?case
  proof (cases "x = c")
    case True
    then show ?thesis using split_char_first [of c xs] by simp
  next
    case False
    with Cons have "split_char c xs ! Suc 0 = takeWhile (\<lambda>x. x \<noteq> c) (tl (dropWhile (\<lambda>x. x \<noteq> c) xs))"
      by simp
    with False show ?thesis using split_char_nonempty [of c xs]
      by (cases "split_char c xs") auto
  qed
qed

lemma strip_blank: "\<forall>c \<in> set f. is_space c \<Longrightarrow> strip f = []"
proof -
  assume "\<forall>c \<in> set f. is_space c"
  then have d: "dropWhile is_space f = []" by simp
  show ?thesis unfolding strip_def d by simp
qed

lemma comma_not_space: "\<not> is_space CHR '',''"
  by (simp add: is_space_def)

lemma parse_sender_email_no_comma:
  assumes "CHR '','' \<notin> set f"
  shows "parse_sender_email (Some f) =
     (if strip f = [] then Inr None
      else if CHR ''<'' \<in> set (strip f) \<and> CHR ''>'' \<in> set (strip f)
           then Inr (Some (takeWhile (\<lambda>c. c \<noteq> CHR ''<'' \<and> c \<noteq> CHR ''>'')
                             (tl (dropWhile (\<lambda>c. c \<noteq> CHR ''<'') (strip f)))))
           else Inr (Some (strip f)))"
proof -
  have sp: "split_char CHR '','' f = [f]"
    using assms by (rule split_char_no_sep)
  have e: "strip [] = []" by (simp add: strip_def)
  have tw: "takeWhile (\<lambda>x. x \<noteq> CHR ''>'') (takeWhile (\<lambda>x. x \<noteq> CHR ''<'') xs)
            = takeWhile (\<lambda>c. c \<noteq> CHR ''<'' \<and> c \<noteq> CHR ''>'') xs" for xs :: string
    by (induction xs) auto
  show ?thesis
    using e by (auto simp add: parse_sender_email_def sp Let_def split_char_first split_char_second tw)
qed

lemma parse_sender_email_comma:
  assumes "CHR '','' \<in> set f"
  shows "parse_sender_email (Some f) = Inl (More_than_one_sender (split_char CHR '','' f))"
proof -
  have "1 < length (split_char CHR '','' f)"
    using assms by (rule split_char_length_sep)
  moreover have "f \<noteq> []" using assms by auto
  ultimately show ?thesis
    by (auto simp add: parse_sender_email_def Let_def)
qed

text \<open>
  Claim C3 as stated fails twice. A trailing comma gives one non-blank
  candidate, and the function raises. With a second \<open><\<close> before the first
  \<open>>\<close>, the function returns less than the text between the first \<open><\<close> and
  the first \<open>>\<close>.
\<close>

theorem parse_sender_email_counterexample:
  "parse_sender_email (Some ''a@b.com,'') = Inl (More_than_one_sender [''a@b.com'', []])
   \<and> length (spec_candidates ''a@b.com,'') = 1
   \<and> parse_sender_email (Some ''a<b<c>'') = Inr (Some ''b'')
   \<and> spec_between_angles ''a<b<c>'' = ''b<c''"
  by code_simp

text \<open>
  Claim C3, amended. \<open>parse_sender_email\<close> returns \<open>None\<close> for \<open>None\<close>, for
  the empty string and for a string of whitespace; it raises exactly when the
  split on commas yields more than one token, blank or not; for a single
  non-blank token it returns the text after the first \<open><\<close> up to the next
  \<open><\<close> or \<open>>\<close> when the stripped token contains both characters, and the
  stripped token otherwise.
\<close>

theorem parse_sender_email_cases:
  "parse_sender_email None = Inr None
   \<and> parse_sender_email (Some []) = Inr None
   \<and> ((\<forall>c \<in> set f. is_space c) \<longrightarrow> parse_sender_email (Some f) = Inr None)
   \<and> ((\<exists>e. parse_sender_email (Some f) = Inl e) \<longleftrightarrow> 1 < length (split_char CHR '','' f))
   \<and> (length (split_char CHR '','' f) = 1 \<and> strip f \<noteq> [] \<longrightarrow>
        parse_sender_email (Some f) =
          Inr (Some (if CHR ''<'' \<in> set (strip f) \<and> CHR ''>'' \<in> set (strip f)
                     then takeWhile (\<lambda>c. c \<noteq> CHR ''<'' \<and> c \<noteq> CHR ''>'')
                            (tl (dropWhile (\<lambda>c. c \<noteq> CHR ''<'') (strip f)))
                     else strip f)))"
proof -
  have a: "parse_sender_email None = Inr None"
    by (simp add: parse_sender_email_def)
  have b: "parse_sender_email (Some []) = Inr None"
    by (simp add: parse_sender_email_def)
  have c: "parse_sender_email (Some f) = Inr None" if h: "\<forall>c \<in> set f. is_space c"
  proof -
    have "CHR '','' \<notin> set f" using h comma_not_space by blast
    then show ?thesis using strip_blank [OF h] by (simp add: parse_sender_email_no_comma)
  qed
  have d: "(\<exists>e. parse_sender_email (Some f) = Inl e) \<longleftrightarrow> 1 < length (split_char CHR '','' f)"
  proof (cases "CHR '','' \<in> set f")
    case True
    then show ?thesis
      using split_char_length_sep [of "CHR '',''" f] by (simp add: parse_sender_email_comma)
  next
    case False
    then show ?thesis
      by (simp add: parse_sender_email_no_comma split_char_no_sep)
  qed
  have e: "parse_sender_email (Some f) =
          Inr (Some (if CHR ''<'' \<in> set (strip f) \<and> CHR ''>'' \<in> set (strip f)
                     then takeWhile (\<lambda>c. c \<noteq> CHR ''<'' \<and> c \<noteq> CHR ''>'')
                            (tl (dropWhile (\<lambda>c. c \<noteq> CHR ''<'') (strip f)))
                     else strip f))"
    if h: "length (split_char CHR '','' f) = 1 \<and> strip f \<noteq> []"
  proof -
    have "CHR '','' \<notin> set f" using h by (simp add: split_char_length_one)
    then show ?thesis using h by (simp add: parse_sender_email_no_comma)
  qed
  from a b c d e show ?thesis by blast
qed

text \<open>
  Instances: a blank header, a display name with an address, two addresses.
\<close>

theorem parse_sender_email_cases_witness:
  "parse_sender_email (Some ''   '') = Inr None
   \<and> parse_sender_email (Some ''A <a@b.com>'') = Inr (Some ''a@b.com'')
   \<and> (\<exists>e. parse_sender_email (Some ''a@b.com,c@d.com'') = Inl e)"
proof -
  have 1: "\<forall>c \<in> set ''   ''. is_space c" by code_simp
  have 2: "length (split_char CHR '','' ''A <a@b.com>'') = 1 \<and> strip ''A <a@b.com>'' \<noteq> []"
    by code_simp
  have 3: "1 < length (split_char CHR '','' ''a@b.com,c@d.com'')" by code_simp
  have 4: "(if CHR ''<'' \<in> set (strip ''A <a@b.com>'') \<and> CHR ''>'' \<in> set (strip ''A <a@b.com>'')
                     then takeWhile (\<lambda>c. c \<noteq> CHR ''<'' \<and> c \<noteq> CHR ''>'')
                            (tl (dropWhile (\<lambda>c. c \<noteq> CHR ''<'') (strip ''A <a@b.com>'')))
                     else strip ''A <a@b.com>'') = ''a@b.com''"
    by code_simp
  from parse_sender_email_cases [of "''   ''"] 1
  have a: "parse_sender_email (Some ''   '') = Inr None" by blast
  from parse_sender_email_cases [of "''A <a@b.com>''"] 2
  have b: "parse_sender_email (Some ''A <a@b.com>'') =
          Inr (Some (if CHR ''<'' \<in> set (strip ''A <a@b.com>'') \<and> CHR ''>'' \<in> set (strip ''A <a@b.com>'')
                     then takeWhile (\<lambda>c. c \<noteq> CHR ''<'' \<and> c \<noteq> CHR ''>'')
                            (tl (dropWhile (\<lambda>c. c \<noteq> CHR ''<'') (strip ''A <a@b.com>'')))
                     else strip ''A <a@b.com>''))" by blast
  from parse_sender_email_cases [of "''a@b.com,c@d.com''"] 3
  have c: "\<exists>e. parse_sender_email (Some ''a@b.com,c@d.com'') = Inl e" by blast
  from a b c 4 show ?thesis by simp
qed

section \<open>Properties of sender lookup\<close>

lemma select_sender_default:
  "\<forall>g \<in> set gs. \<forall>u \<in> set users. g \<notin> set (groups u) \<Longrightarrow>
   select_sender users d gs = d"
  by (induction gs) (auto simp add: Let_def filter_empty_conv)

lemma select_sender_first:
  "i < length gs \<Longrightarrow>
   \<exists>u \<in> set users. gs ! i \<in> set (groups u) \<Longrightarrow>
   \<forall>j < i. \<forall>u \<in> set users. gs ! j \<notin> set (groups u) \<Longrightarrow>
   select_sender users d gs = hd (filter (\<lambda>x. gs ! i \<in> set (groups x)) users)"
proof (induction gs arbitrary: i)
  case Nil
  then show ?case by simp
next
  case (Cons g gs)
  show ?case
  proof (cases i)
    case 0
    with Cons.prems(2) have "filter (\<lambda>x. g \<in> set (groups x)) users \<noteq> []"
      by (auto simp add: filter_empty_conv)
    with 0 show ?thesis by (simp add: Let_def hd_conv_nth)
  next
    case (Suc k)
    from Cons.prems(3) Suc have none: "\<forall>u \<in> set users. g \<notin> set (groups u)"
      by fastforce
    have k: "k < length gs" using Cons.prems(1) Suc by simp
    have ex: "\<exists>u \<in> set users. gs ! k \<in> set (groups u)" using Cons.prems(2) Suc by simp
    have before: "\<forall>j < k. \<forall>u \<in> set users. gs ! j \<notin> set (groups u)"
    proof (intro allI impI)
      fix j assume "j < k"
      then have "Suc j < i" using Suc by simp
      with Cons.prems(3) have "\<forall>u \<in> set users. (g # gs) ! Suc j \<notin> set (groups u)" by blast
      then show "\<forall>u \<in> set users. gs ! j \<notin> set (groups u)" by simp
    qed
    from Cons.IH [OF k ex before] none Suc show ?thesis
      by (simp add: Let_def filter_empty_conv)
  qed
qed

lemma hd_sorted_least:
  "sorted (map f xs) \<Longrightarrow> u \<in> set xs \<Longrightarrow> f (hd xs) \<le> f u"
  by (cases xs) auto

lemma lookup_sender_many:
  "2 \<le> length (matching_users db addr host) \<Longrightarrow>
   lookup_sender db addr host =
     Some (select_sender (sender_query db addr host) (hd (sender_query db addr host)) role_order)"
proof -
  assume h: "2 \<le> length (matching_users db addr host)"
  let ?q = "sender_query db addr host"
  have len: "length ?q = length (matching_users db addr host)"
    by (simp add: sender_query_def)
  then have ne: "?q \<noteq> []" using h by auto
  then have "?q ! 0 = hd ?q" by (simp add: hd_conv_nth)
  moreover have "length ?q \<noteq> 0" "length ?q \<noteq> 1" using h len by auto
  ultimately show ?thesis by (simp add: lookup_sender_def Let_def)
qed

text \<open>
  Claim C4. When two or more accounts match, \<open>lookup_sender\<close> returns an
  account of the first role in the order Administrator, Teacher, Volunteer,
  Student, Educator that some matching account holds, and none of the matching
  accounts with that role joined earlier; when no matching account holds any
  of the five roles it returns a matching account than which none joined
  earlier. With exactly two matching accounts, one in the group Teacher and one
  in the group Student, the Teacher account is returned whatever the join times.
\<close>

theorem lookup_sender_role_priority:
  assumes "users = matching_users db addr host" and "2 \<le> length users"
  shows "(\<forall>i < length role_order.
            (\<exists>u \<in> set users. role_order ! i \<in> set (groups u)) \<and>
            (\<forall>j < i. \<forall>u \<in> set users. role_order ! j \<notin> set (groups u)) \<longrightarrow>
            (\<exists>s. lookup_sender db addr host = Some s \<and> s \<in> set users
                 \<and> role_order ! i \<in> set (groups s)
                 \<and> (\<forall>u \<in> set users. role_order ! i \<in> set (groups u)
                        \<longrightarrow> date_joined s \<le> date_joined u)))
       \<and> ((\<forall>g \<in> set role_order. \<forall>u \<in> set users. g \<notin> set (groups u)) \<longrightarrow>
            (\<exists>s. lookup_sender db addr host = Some s \<and> s \<in> set users
                 \<and> (\<forall>u \<in> set users. date_joined s \<le> date_joined u)))
       \<and> (\<forall>t s. (users = [t, s] \<or> users = [s, t])
                 \<and> groups t = [''Teacher''] \<and> groups s = [''Student'']
               \<longrightarrow> lookup_sender db addr host = Some t)"
proof -
  define q where "q = sender_query db addr host"
  have q_set: "set q = set users"
    by (simp add: q_def sender_query_def assms(1))
  have q_sorted: "sorted (map date_joined q)"
    by (simp add: q_def sender_query_def)
  have q_ne: "q \<noteq> []"
    using assms(2) q_set by (cases users) auto
  have res: "lookup_sender db addr host = Some (select_sender q (hd q) role_order)"
    using assms lookup_sender_many [of db addr host] by (simp add: q_def)
  have tier: "\<exists>s. lookup_sender db addr host = Some s \<and> s \<in> set users
                 \<and> role_order ! i \<in> set (groups s)
                 \<and> (\<forall>u \<in> set users. role_order ! i \<in> set (groups u)
                        \<longrightarrow> date_joined s \<le> date_joined u)"
    if i: "i < length role_order"
      and ex: "\<exists>u \<in> set users. role_order ! i \<in> set (groups u)"
      and before: "\<forall>j < i. \<forall>u \<in> set users. role_order ! j \<notin> set (groups u)"
    for i
  proof -
    let ?P = "\<lambda>x. role_order ! i \<in> set (groups x)"
    let ?gu = "filter ?P q"
    have sel: "select_sender q (hd q) role_order = hd ?gu"
      using select_sender_first [of i role_order q "hd q"] i ex before q_set by simp
    have gu_ne: "?gu \<noteq> []"
      using ex q_set by (auto simp add: filter_empty_conv)
    then have mem: "hd ?gu \<in> set ?gu" by (rule hd_in_set)
    have srt: "sorted (map date_joined ?gu)"
      using q_sorted by (rule sorted_filter)
    have least: "date_joined (hd ?gu) \<le> date_joined u"
      if "u \<in> set users" "?P u" for u
      using hd_sorted_least [OF srt, of u] that q_set by simp
    from mem have "hd ?gu \<in> set users \<and> ?P (hd ?gu)"
      using q_set by auto
    with res sel least show ?thesis by auto
  qed
  have fallback: "\<exists>s. lookup_sender db addr host = Some s \<and> s \<in> set users
                 \<and> (\<forall>u \<in> set users. date_joined s \<le> date_joined u)"
    if none: "\<forall>g \<in> set role_order. \<forall>u \<in> set users. g \<notin> set (groups u)"
  proof -
    have sel: "select_sender q (hd q) role_order = hd q"
      using select_sender_default [of role_order q "hd q"] none q_set by simp
    have "hd q \<in> set users" using q_ne q_set hd_in_set by blast
    moreover have "date_joined (hd q) \<le> date_joined u" if "u \<in> set users" for u
      using hd_sorted_least [OF q_sorted, of u] that q_set by simp
    ultimately show ?thesis using res sel by auto
  qed
  have teacher: "lookup_sender db addr host = Some t"
    if h: "(users = [t, s] \<or> users = [s, t])
           \<and> groups t = [''Teacher''] \<and> groups s = [''Student'']" for t s
  proof -
    have us: "set users = {t, s}" using h by auto
    have i1: "(1::nat) < length role_order" by (simp add: role_order_def)
    have r1: "role_order ! 1 = ''Teacher''" by (simp add: role_order_def)
    have r0: "role_order ! 0 = ''Administrator''" by (simp add: role_order_def)
    have ex: "\<exists>u \<in> set users. role_order ! 1 \<in> set (groups u)"
      using us h r1 by auto
    have before: "\<forall>j < (1::nat). \<forall>u \<in> set users. role_order ! j \<notin> set (groups u)"
      using us h r0 by auto
    from tier [OF i1 ex before] obtain w where
      w: "lookup_sender db addr host = Some w" "w \<in> set users" "role_order ! 1 \<in> set (groups w)"
      by blast
    have "w = t" using w(2,3) us h r1 by auto
    with w(1) show ?thesis by simp
  qed
  from tier fallback teacher show ?thesis by blast
qed

text \<open>
  An instance: the Student account joined first, the Teacher account is chosen.
\<close>

theorem lookup_sender_role_priority_witness:
  "lookup_sender example_users ''dup@gmail.com'' ''test.learningu.org''
     = Some \<lparr>username = ''user_t'', email = ''dup@gmail.com'', groups = [''Teacher''],
              date_joined = 2\<rparr>"
proof -
  let ?t = "\<lparr>username = ''user_t'', email = ''dup@gmail.com'', groups = [''Teacher''],
             date_joined = 2\<rparr>"
  let ?s = "\<lparr>username = ''user_s'', email = ''Dup@Gmail.com'', groups = [''Student''],
             date_joined = 1\<rparr>"
  have m: "[?t, ?s] = matching_users example_users ''dup@gmail.com'' ''test.learningu.org''"
    by code_simp
  have l: "2 \<le> length [?t, ?s]" by simp
  have g: "([?t, ?s] = [?t, ?s] \<or> [?t, ?s] = [?s, ?t])
           \<and> groups ?t = [''Teacher''] \<and> groups ?s = [''Student'']"
    by simp
  from lookup_sender_role_priority [OF m l] g show ?thesis by blast
qed

section \<open>Properties of body rendering and of the migration\<close>

lemma build_email_body_single_html:
  "build_email_body (Text_part ''html'' c) = Inr (html_prefix @ c @ html_suffix)"
  by (simp add: build_email_body_def get_body_def)

lemma build_email_body_single_plain:
  "build_email_body (Text_part ''plain'' c) = Inr (html_prefix @ html_escape c @ html_suffix)"
  by (simp add: build_email_body_def get_body_def)

text \<open>
  Claim C7. For a message with a plain-text part and an HTML alternative, the
  preferred body is the HTML part, but the content type tested is that of the
  whole message, \<open>multipart/alternative\<close>, so the HTML is escaped. The
  repository's test \<open>test_html_content_preserved\<close> expects it unescaped.
\<close>

theorem build_email_body_escapes_html_alternative:
  "get_body html_alternative_message
     = Some (Text_part ''html'' (''<p>Hello <b>world</b></p>'' @ [CHR 0x0A]))
   \<and> get_content_type html_alternative_message = ''multipart/alternative''
   \<and> build_email_body html_alternative_message
     = Inr (html_prefix @ ''&lt;p&gt;Hello &lt;b&gt;world&lt;/b&gt;&lt;/p&gt;'' @ [CHR 0x0A]
            @ html_suffix)"
  by code_simp

lemma affected_ids_empty_iff:
  "affected_ids s \<noteq> [] \<longleftrightarrow>
     (\<exists>m \<in> set (program_modules s). handler m = ''AdminMorph'' \<and>
        (\<exists>p \<in> set (programs s). (p, pm_id m) \<in> set (module_links s)))"
proof -
  have "affected_ids s = [] \<longleftrightarrow> concat (map (programs_with_module s) (adminmorph_qs s)) = []"
    unfolding affected_ids_def
    by (metis length_0_conv length_sort remdups_eq_nil_iff)
  also have "\<dots> \<longleftrightarrow> \<not> (\<exists>m \<in> set (program_modules s). handler m = ''AdminMorph'' \<and>
        (\<exists>p \<in> set (programs s). (p, pm_id m) \<in> set (module_links s)))"
    by (auto simp add: adminmorph_qs_def programs_with_module_def filter_empty_conv)
  finally show ?thesis by blast
qed

text \<open>
  Claim C5. If the state file cannot be written and some program is linked to
  an AdminMorph row, the forward function raises \<open>OSError\<close> and the three
  tables are as before. If the write succeeds, or no program is linked to an
  AdminMorph row, it returns and every AdminMorph row is deleted.
\<close>

theorem forward_migration_write_failure:
  "(w \<noteq> Written \<and>
      (\<exists>m \<in> set (program_modules s). handler m = ''AdminMorph'' \<and>
         (\<exists>p \<in> set (programs s). (p, pm_id m) \<in> set (module_links s)))
      \<longrightarrow> fst (remove_adminmorph_programmodule w s) = Raised OSError
          \<and> program_modules (snd (remove_adminmorph_programmodule w s)) = program_modules s
          \<and> programs (snd (remove_adminmorph_programmodule w s)) = programs s
          \<and> module_links (snd (remove_adminmorph_programmodule w s)) = module_links s)
   \<and> (w = Written \<or>
      \<not> (\<exists>m \<in> set (program_modules s). handler m = ''AdminMorph'' \<and>
           (\<exists>p \<in> set (programs s). (p, pm_id m) \<in> set (module_links s)))
      \<longrightarrow> fst (remove_adminmorph_programmodule w s) = Returned
          \<and> program_modules (snd (remove_adminmorph_programmodule w s))
              = filter (\<lambda>m. handler m \<noteq> ''AdminMorph'') (program_modules s)
          \<and> (\<forall>m \<in> set (program_modules (snd (remove_adminmorph_programmodule w s))).
                handler m \<noteq> ''AdminMorph''))"
proof -
  let ?A = "\<exists>m \<in> set (program_modules s). handler m = ''AdminMorph'' \<and>
         (\<exists>p \<in> set (programs s). (p, pm_id m) \<in> set (module_links s))"
  have ids: "affected_ids s \<noteq> [] \<longleftrightarrow> ?A"
    by (rule affected_ids_empty_iff)
  have raise: "remove_adminmorph_programmodule w s
          = (Raised OSError, s\<lparr>the_state_file := write_state_file w (affected_ids s) (the_state_file s)\<rparr>)"
    if "w \<noteq> Written" "?A"
    using that ids by (simp add: remove_adminmorph_programmodule_def Let_def)
  have ok: "remove_adminmorph_programmodule w s
          = (Returned, delete_adminmorph
               (s\<lparr>the_state_file := write_state_file w (affected_ids s) (the_state_file s)\<rparr>))"
    if "w = Written \<or> \<not> ?A"
    using that ids by (auto simp add: remove_adminmorph_programmodule_def Let_def)
  show ?thesis
  proof (intro conjI impI)
    assume h: "w \<noteq> Written \<and> ?A"
    then have r: "remove_adminmorph_programmodule w s
          = (Raised OSError, s\<lparr>the_state_file := write_state_file w (affected_ids s) (the_state_file s)\<rparr>)"
      using raise by blast
    show "fst (remove_adminmorph_programmodule w s) = Raised OSError" by (simp add: r)
    show "program_modules (snd (remove_adminmorph_programmodule w s)) = program_modules s"
      by (simp add: r)
    show "programs (snd (remove_adminmorph_programmodule w s)) = programs s" by (simp add: r)
    show "module_links (snd (remove_adminmorph_programmodule w s)) = module_links s"
      by (simp add: r)
  next
    assume h: "w = Written \<or> \<not> ?A"
    note r = ok [OF h]
    show "fst (remove_adminmorph_programmodule w s) = Returned" by (simp add: r)
    show "program_modules (snd (remove_adminmorph_programmodule w s))
              = filter (\<lambda>m. handler m \<noteq> ''AdminMorph'') (program_modules s)"
      by (simp add: r delete_adminmorph_def)
    show "\<forall>m \<in> set (program_modules (snd (remove_adminmorph_programmodule w s))).
                handler m \<noteq> ''AdminMorph''"
      by (simp add: r delete_adminmorph_def)
  qed
qed

text \<open>
  Instances: a failed write with one linked program, a successful write, and
  a failed write with nothing linked.
\<close>

theorem forward_migration_write_failure_witness:
  "fst (remove_adminmorph_programmodule Open_failed example_installed) = Raised OSError
   \<and> program_modules (snd (remove_adminmorph_programmodule Open_failed example_installed))
       = program_modules example_installed
   \<and> module_links (snd (remove_adminmorph_programmodule Open_failed example_installed))
       = module_links example_installed
   \<and> fst (remove_adminmorph_programmodule Written example_installed) = Returned
   \<and> fst (remove_adminmorph_programmodule Dump_failed example_removed) = Returned"
proof -
  have a: "\<exists>m \<in> set (program_modules example_installed). handler m = ''AdminMorph'' \<and>
         (\<exists>p \<in> set (programs example_installed).
            (p, pm_id m) \<in> set (module_links example_installed))"
    by code_simp
  have n: "\<not> (\<exists>m \<in> set (program_modules example_removed). handler m = ''AdminMorph'' \<and>
         (\<exists>p \<in> set (programs example_removed).
            (p, pm_id m) \<in> set (module_links example_removed)))"
    by code_simp
  have w: "Open_failed \<noteq> Written" by simp
  from forward_migration_write_failure [of Open_failed example_installed] a w
  have 1: "fst (remove_adminmorph_programmodule Open_failed example_installed) = Raised OSError
   \<and> program_modules (snd (remove_adminmorph_programmodule Open_failed example_installed))
       = program_modules example_installed
   \<and> module_links (snd (remove_adminmorph_programmodule Open_failed example_installed))
       = module_links example_installed"
    by blast
  from forward_migration_write_failure [of Written example_installed]
  have 2: "fst (remove_adminmorph_programmodule Written example_installed) = Returned"
    by blast
  from forward_migration_write_failure [of Dump_failed example_removed] n
  have 3: "fst (remove_adminmorph_programmodule Dump_failed example_removed) = Returned"
    by blast
  from 1 2 3 show ?thesis by blast
qed

lemma restore_no_ids:
  assumes "read_ids (the_state_file s) = Inr (JArr [])"
    and "id_in (JArr []) = Inr []"
    and "\<forall>m \<in> set (program_modules s). pm_id m \<noteq> next_module_id s"
  shows "restore_adminmorph_programmodule id_in s =
     (case adminmorph_qs s of
        [] \<Rightarrow> (Returned, s\<lparr>program_modules := program_modules s @ [new_adminmorph s],
                              next_module_id := next_module_id s + 1,
                              the_state_file := Missing\<rparr>)
      | [am] \<Rightarrow> (Returned, s\<lparr>the_state_file := Missing\<rparr>)
      | am # other # others \<Rightarrow> (Raised MultipleObjectsReturned, s))"
proof (cases "adminmorph_qs s")
  case Nil
  have "next_module_id s \<notin> pm_id ` set (program_modules s)"
    using assms(3) by auto
  then show ?thesis using Nil assms(1,2)
    by (simp add: restore_adminmorph_programmodule_def get_or_create_def)
next
  case (Cons am rest)
  then show ?thesis using assms(1,2)
    by (cases rest)
       (simp_all add: restore_adminmorph_programmodule_def get_or_create_def)
qed

lemma adminmorph_qs_mem:
  "adminmorph_qs s = [am] \<Longrightarrow> am \<in> set (program_modules s) \<and> handler am = ''AdminMorph''"
proof -
  assume "adminmorph_qs s = [am]"
  then have "am \<in> set (filter (\<lambda>m. handler m = ''AdminMorph'') (program_modules s))"
    by (simp add: adminmorph_qs_def)
  then show ?thesis by simp
qed

text \<open>
  Claim C6 as stated fails: a state file that is not JSON can make the reverse
  function raise. On text nested beyond the recursion limit \<open>json.load\<close>
  raises \<open>RecursionError\<close>, which the \<open>except\<close> clause does not name; the
  literal \<open>NaN\<close> is decoded to a float, which has no \<open>get\<close>.
\<close>

theorem reverse_migration_malformed_counterexample:
  "malformed (Too_deep False)
   \<and> fst (restore_adminmorph_programmodule int_list_lookup
            (example_removed\<lparr>the_state_file := Too_deep False\<rparr>)) = Raised RecursionError
   \<and> malformed (Json (JFloat ''NaN''))
   \<and> fst (restore_adminmorph_programmodule int_list_lookup
            (example_removed\<lparr>the_state_file := Json (JFloat ''NaN'')\<rparr>)) = Raised AttributeError"
  by code_simp

text \<open>
  Claim C6, amended. With a missing state file, or one whose content
  \<open>json.load\<close> rejects with a \<open>ValueError\<close>, the reverse function behaves as
  with a state file holding an empty list of ids: it never raises for the
  file, it returns unless \<open>get_or_create\<close> finds several AdminMorph rows, and
  when it returns no link has been added and an AdminMorph row exists. The
  lookup selects nothing from the empty list, and the id the database assigns
  next is not in use.
\<close>

theorem reverse_migration_tolerates_state_file:
  assumes "the_state_file s = Missing \<or> the_state_file s = Not_json"
    and "id_in (JArr []) = Inr []"
    and "\<forall>m \<in> set (program_modules s). pm_id m \<noteq> next_module_id s"
  shows "fst (restore_adminmorph_programmodule id_in s)
           = fst (restore_adminmorph_programmodule id_in
                    (s\<lparr>the_state_file := Json (JObj [(''program_ids'', JArr [])])\<rparr>))
       \<and> (fst (restore_adminmorph_programmodule id_in s) = Returned \<longrightarrow>
            snd (restore_adminmorph_programmodule id_in s)
              = snd (restore_adminmorph_programmodule id_in
                       (s\<lparr>the_state_file := Json (JObj [(''program_ids'', JArr [])])\<rparr>)))
       \<and> (fst (restore_adminmorph_programmodule id_in s) = Returned
            \<or> fst (restore_adminmorph_programmodule id_in s) = Raised MultipleObjectsReturned)
       \<and> (fst (restore_adminmorph_programmodule id_in s) = Returned
            \<longleftrightarrow> length (adminmorph_qs s) \<le> 1)
       \<and> (length (adminmorph_qs s) \<le> 1 \<longrightarrow>
            module_links (snd (restore_adminmorph_programmodule id_in s)) = module_links s
            \<and> programs (snd (restore_adminmorph_programmodule id_in s)) = programs s
            \<and> (\<exists>m \<in> set (program_modules (snd (restore_adminmorph_programmodule id_in s))).
                  handler m = ''AdminMorph''))"
proof -
  let ?s0 = "s\<lparr>the_state_file := Json (JObj [(''program_ids'', JArr [])])\<rparr>"
  have r: "read_ids (the_state_file s) = Inr (JArr [])"
    using assms(1) by (auto simp add: read_ids_def)
  have r0: "read_ids (the_state_file ?s0) = Inr (JArr [])"
    by (simp add: read_ids_def)
  have f0: "\<forall>m \<in> set (program_modules ?s0). pm_id m \<noteq> next_module_id ?s0"
    using assms(3) by simp
  have q0: "adminmorph_qs ?s0 = adminmorph_qs s"
    by (simp add: adminmorph_qs_def)
  have n0: "new_adminmorph ?s0 = new_adminmorph s"
    by (simp add: new_adminmorph_def)
  note e = restore_no_ids [where s = s and id_in = id_in, OF r assms(2) assms(3)]
  note e0 = restore_no_ids [where s = ?s0 and id_in = id_in, OF r0 assms(2) f0, unfolded q0 n0]
  show ?thesis
  proof (cases "adminmorph_qs s")
    case Nil
    have "handler (new_adminmorph s) = ''AdminMorph''" by (simp add: new_adminmorph_def)
    then show ?thesis using Nil e e0 by auto
  next
    case (Cons am rest)
    show ?thesis
    proof (cases rest)
      case Nil
      with Cons have one: "adminmorph_qs s = [am]" by simp
      from adminmorph_qs_mem [OF one] show ?thesis using one e e0 by auto
    next
      case (Cons other others)
      with \<open>adminmorph_qs s = am # rest\<close> show ?thesis using e e0 by simp
    qed
  qed
qed

text \<open>
  An instance: the registry has no AdminMorph row and the state file is not
  JSON.
\<close>

theorem reverse_migration_tolerates_state_file_witness:
  "fst (restore_adminmorph_programmodule int_list_lookup example_removed) = Returned
   \<and> module_links (snd (restore_adminmorph_programmodule int_list_lookup example_removed))
       = module_links example_removed
   \<and> (\<exists>m \<in> set (program_modules
                  (snd (restore_adminmorph_programmodule int_list_lookup example_removed))).
         handler m = ''AdminMorph'')"
proof -
  have f: "the_state_file example_removed = Missing \<or> the_state_file example_removed = Not_json"
    by (simp add: example_removed_def)
  have i: "int_list_lookup (JArr []) = Inr []"
    by (simp add: int_list_lookup_def)
  have n: "\<forall>m \<in> set (program_modules example_removed).
             pm_id m \<noteq> next_module_id example_removed"
    by code_simp
  have l: "length (adminmorph_qs example_removed) \<le> 1"
    by code_simp
  from reverse_migration_tolerates_state_file
         [where s = example_removed and id_in = int_list_lookup, OF f i n] l
  show ?thesis by blast
qed

end
